theory Spec2Isabelle
  imports Main "HOL-Library.AList"
begin

section \<open>Data model of the live-chat relay\<close>

text \<open>
  Socket ids, conversation ids and room names are strings. Clock readings
  (\<^verbatim>\<open>new Date()\<close>, \<^verbatim>\<open>Date.now()\<close>, \<^verbatim>\<open>toISOString()\<close>) are milliseconds since the
  epoch, an \<open>int\<close>: the ISO string and the Date object of one reading carry the same number.
\<close>

type_synonym sockid = string
type_synonym convid = string
type_synonym time = int

text \<open>The object \<^verbatim>\<open>{ text, sender, timestamp, convId }\<close> built by \<^verbatim>\<open>message:send\<close>.\<close>

record message =
  msg_text :: string
  msg_sender :: string
  msg_timestamp :: time
  msg_convId :: convid

text \<open>
  The JSON column \<^verbatim>\<open>live_message\<close>: an object whose \<^verbatim>\<open>messages\<close> property is an array, or
  is missing (\<open>None\<close>). The column itself may hold null (\<open>None\<close> in the row).
\<close>

record message_log =
  messages :: "message list option"

text \<open>
  A row of the table \<^verbatim>\<open>livechat\<close>. Every column but the key is nullable. The same record
  is the argument of an upsert, where \<open>None\<close> means that the column is not given.
\<close>

record row =
  live_chat_id :: convid
  customer_name :: "string option"
  chatbot_id :: "string option"
  user_id :: "string option"
  live_message :: "message_log option"
  created_at :: "time option"

text \<open>The values of the three Maps of \<^verbatim>\<open>sessions\<close>.\<close>

record customer =
  cust_convId :: convid
  cust_chatbotId :: string
  cust_userId :: string
  cust_customerEmail :: string

record agent =
  agent_convId :: convid

record conversation =
  conv_convId :: convid
  conv_chatbotId :: string
  conv_customerEmail :: string
  conv_timestamp :: time
  conv_lastMessage :: "message option"

text \<open>
  The process state: the three Maps of \<^verbatim>\<open>sessions\<close> (a JavaScript Map is an association
  list in insertion order: \<^verbatim>\<open>set\<close> is \<^const>\<open>AList.update\<close>, \<^verbatim>\<open>delete\<close> is
  \<^const>\<open>AList.delete\<close>, \<^verbatim>\<open>get\<close> is \<^const>\<open>map_of\<close>, \<^verbatim>\<open>values()\<close> is \<open>map snd\<close>), the
  room membership kept by the transport, and the table behind the store client. The server
  starts with empty Maps: the call of \<^verbatim>\<open>loadActiveConversations\<close> is commented out. Console
  output is left out.
\<close>

record world =
  customers :: "(sockid \<times> customer) list"
  agents :: "(sockid \<times> agent) list"
  conversations :: "(convid \<times> conversation) list"
  rooms :: "(sockid \<times> string) set"
  livechat :: "row list"

definition init_world :: world where
  "init_world = \<lparr>customers = [], agents = [], conversations = [], rooms = {}, livechat = []\<rparr>"

text \<open>Payloads of the inbound events; \<open>sp_timestamp\<close> is the client-supplied timestamp.\<close>

record join_payload =
  jp_convId :: convid
  jp_chatbotId :: string
  jp_userId :: string
  jp_customerEmail :: string

record send_payload =
  sp_convId :: convid
  sp_chatbotId :: string
  sp_userId :: string
  sp_text :: string
  sp_sender :: string
  sp_timestamp :: "time option"

text \<open>
  What the outside decides during one handler run: whether the select and the upsert
  come back with an error, and the clock at the first and second reading. A call that
  comes back with an error has left the table as it was.
\<close>

record env =
  select_error :: "string option"
  upsert_error :: "string option"
  now1 :: time
  now2 :: time

text \<open>What a handler does to the outside, in order.\<close>

datatype target = ToSocket sockid | ToRoom string | ToAll

datatype event_out =
    ChatUpdated "conversation list"
  | ChatJoined convid string
  | MessageReceived message
  | ErrorEvent string

datatype effect = Select convid | Upsert row | Emit target event_out

datatype js_error = StoreError string | TypeError

section \<open>The store client\<close>

record select_response =
  data :: "row list option"
  error :: "string option"

text \<open>\<^verbatim>\<open>supabase.from('livechat').select(..).eq('live_chat_id', convId)\<close>\<close>

definition select_livechat :: "row list \<Rightarrow> string option \<Rightarrow> convid \<Rightarrow> select_response" where
  "select_livechat tbl fault c =
     (case fault of
        Some e \<Rightarrow> \<lparr>data = None, error = Some e\<rparr>
      | None \<Rightarrow> \<lparr>data = Some (filter (\<lambda>r. live_chat_id r = c) tbl), error = None\<rparr>)"

text \<open>The given columns of \<open>new\<close> replace those of \<open>old\<close>; the others stay.\<close>

definition merge_opt :: "'a option \<Rightarrow> 'a option \<Rightarrow> 'a option" where
  "merge_opt new old = (case new of None \<Rightarrow> old | Some v \<Rightarrow> Some v)"

definition merge_row :: "row \<Rightarrow> row \<Rightarrow> row" where
  "merge_row new old =
     \<lparr>live_chat_id = live_chat_id old,
      customer_name = merge_opt (customer_name new) (customer_name old),
      chatbot_id = merge_opt (chatbot_id new) (chatbot_id old),
      user_id = merge_opt (user_id new) (user_id old),
      live_message = merge_opt (live_message new) (live_message old),
      created_at = merge_opt (created_at new) (created_at old)\<rparr>"

text \<open>
  \<^verbatim>\<open>.upsert(row, {onConflict: ["live_chat_id"]})\<close> when it succeeds: a row with the key takes
  the given columns, and without one the row is added, its other columns null.
\<close>

definition upsert :: "row \<Rightarrow> row list \<Rightarrow> row list" where
  "upsert r tbl =
     (if live_chat_id r \<in> set (map live_chat_id tbl)
      then map (\<lambda>x. if live_chat_id x = live_chat_id r then merge_row r x else x) tbl
      else tbl @ [r])"

text \<open>\<^verbatim>\<open>getConversationMessages\<close>, on the response of the select.\<close>

definition getConversationMessages_of :: "select_response \<Rightarrow> js_error + message_log option" where
  "getConversationMessages_of resp =
     (case error resp of
        Some e \<Rightarrow> Inl (StoreError e)
      | None \<Rightarrow>
          (case data resp of
             Some (r # rs) \<Rightarrow> Inr (live_message r)
           | _ \<Rightarrow> Inr (Some \<lparr>messages = Some []\<rparr>)))"

definition getConversationMessages ::
  "row list \<Rightarrow> string option \<Rightarrow> convid \<Rightarrow> js_error + message_log option" where
  "getConversationMessages tbl fault c = getConversationMessages_of (select_livechat tbl fault c)"

section \<open>The handlers\<close>

definition room_of :: "convid \<Rightarrow> string" where
  "room_of c = ''conv-'' @ c"

definition snapshot :: "world \<Rightarrow> conversation list" where
  "snapshot w = map snd (conversations w)"

text \<open>
  The body of a \<^verbatim>\<open>try\<close> block returns the state and the effects at the point where it
  ends, and the exception if it ended by a throw.
\<close>

type_synonym outcome = "world \<times> effect list \<times> js_error option"

definition create_row :: "join_payload \<Rightarrow> time \<Rightarrow> row" where
  "create_row p t =
     \<lparr>live_chat_id = jp_convId p,
      customer_name = Some (jp_customerEmail p),
      chatbot_id = Some (jp_chatbotId p),
      user_id = None,
      live_message = Some \<lparr>messages = Some []\<rparr>,
      created_at = Some t\<rparr>"

definition new_conversation :: "join_payload \<Rightarrow> time \<Rightarrow> conversation" where
  "new_conversation p t =
     \<lparr>conv_convId = jp_convId p, conv_chatbotId = jp_chatbotId p,
      conv_customerEmail = jp_customerEmail p, conv_timestamp = t, conv_lastMessage = None\<rparr>"

definition customer_of :: "join_payload \<Rightarrow> customer" where
  "customer_of p =
     \<lparr>cust_convId = jp_convId p, cust_chatbotId = jp_chatbotId p,
      cust_userId = jp_userId p, cust_customerEmail = jp_customerEmail p\<rparr>"

text \<open>The end of the \<^verbatim>\<open>customer:join\<close> body: join the room, broadcast, acknowledge.\<close>

definition join_finish :: "world \<Rightarrow> sockid \<Rightarrow> join_payload \<Rightarrow> effect list \<Rightarrow> outcome" where
  "join_finish w sock p tr =
     (let w' = w\<lparr>rooms := insert (sock, room_of (jp_convId p)) (rooms w)\<rparr>
      in (w',
          tr @ [Emit ToAll (ChatUpdated (snapshot w')),
                Emit (ToSocket sock) (ChatJoined (jp_convId p) (jp_customerEmail p))],
          None))"

definition customer_join_try :: "world \<Rightarrow> sockid \<Rightarrow> join_payload \<Rightarrow> env \<Rightarrow> outcome" where
  "customer_join_try w sock p ev =
     (case getConversationMessages (livechat w) (select_error ev) (jp_convId p) of
        Inl e \<Rightarrow> (w, [Select (jp_convId p)], Some e)
      | Inr None \<Rightarrow> (w, [Select (jp_convId p)], Some TypeError)
      | Inr (Some existingMessages) \<Rightarrow>
          (case messages existingMessages of
             None \<Rightarrow> (w, [Select (jp_convId p)], Some TypeError)
           | Some ms \<Rightarrow>
               (let isNewConversation = (length ms = 0);
                    w1 = w\<lparr>customers := AList.update sock (customer_of p) (customers w)\<rparr>
                in if isNewConversation
                   then (case upsert_error ev of
                           Some e \<Rightarrow>
                             (w1, [Select (jp_convId p), Upsert (create_row p (now1 ev))],
                              Some (StoreError e))
                         | None \<Rightarrow>
                             join_finish
                               (w1\<lparr>livechat := upsert (create_row p (now1 ev)) (livechat w1),
                                   conversations :=
                                     AList.update (jp_convId p) (new_conversation p (now2 ev))
                                       (conversations w1)\<rparr>)
                               sock p
                               [Select (jp_convId p), Upsert (create_row p (now1 ev))])
                   else join_finish w1 sock p [Select (jp_convId p)])))"

definition catch :: "sockid \<Rightarrow> string \<Rightarrow> outcome \<Rightarrow> world \<times> effect list" where
  "catch sock reason out =
     (case out of
        (w, tr, None) \<Rightarrow> (w, tr)
      | (w, tr, Some e) \<Rightarrow> (w, tr @ [Emit (ToSocket sock) (ErrorEvent reason)]))"

definition customer_join :: "world \<Rightarrow> sockid \<Rightarrow> join_payload \<Rightarrow> env \<Rightarrow> world \<times> effect list" where
  "customer_join w sock p ev =
     catch sock ''Failed to join chat session'' (customer_join_try w sock p ev)"

definition agent_join_try :: "world \<Rightarrow> sockid \<Rightarrow> convid \<Rightarrow> env \<Rightarrow> outcome" where
  "agent_join_try w sock c ev =
     (case getConversationMessages (livechat w) (select_error ev) c of
        Inl e \<Rightarrow> (w, [Select c], Some e)
      | Inr msgs \<Rightarrow>
          (w\<lparr>agents := AList.update sock \<lparr>agent_convId = c\<rparr> (agents w),
             rooms := insert (sock, room_of c) (rooms w)\<rparr>,
           [Select c], None))"

definition agent_join :: "world \<Rightarrow> sockid \<Rightarrow> convid \<Rightarrow> env \<Rightarrow> world \<times> effect list" where
  "agent_join w sock c ev =
     catch sock ''Failed to join conversation'' (agent_join_try w sock c ev)"

definition message_of :: "send_payload \<Rightarrow> time \<Rightarrow> message" where
  "message_of p t =
     \<lparr>msg_text = sp_text p, msg_sender = sp_sender p, msg_timestamp = t,
      msg_convId = sp_convId p\<rparr>"

text \<open>\<^verbatim>\<open>currentMessages.messages || []\<close>\<close>

definition messages_or_empty :: "message_log \<Rightarrow> message list" where
  "messages_or_empty lm = (case messages lm of None \<Rightarrow> [] | Some ms \<Rightarrow> ms)"

definition update_row :: "send_payload \<Rightarrow> message list \<Rightarrow> row" where
  "update_row p ms =
     \<lparr>live_chat_id = sp_convId p,
      customer_name = None,
      chatbot_id = Some (sp_chatbotId p),
      user_id = Some (sp_userId p),
      live_message = Some \<lparr>messages = Some ms\<rparr>,
      created_at = None\<rparr>"

definition message_send_try :: "world \<Rightarrow> sockid \<Rightarrow> send_payload \<Rightarrow> env \<Rightarrow> outcome" where
  "message_send_try w sock p ev =
     (let message = message_of p (now1 ev)
      in case getConversationMessages (livechat w) (select_error ev) (sp_convId p) of
           Inl e \<Rightarrow> (w, [Select (sp_convId p)], Some e)
         | Inr None \<Rightarrow> (w, [Select (sp_convId p)], Some TypeError)
         | Inr (Some currentMessages) \<Rightarrow>
             (let updatedMessages = messages_or_empty currentMessages @ [message];
                  tr = [Select (sp_convId p), Upsert (update_row p updatedMessages)]
              in case upsert_error ev of
                   Some e \<Rightarrow> (w, tr, Some (StoreError e))
                 | None \<Rightarrow>
                     (let w1 = w\<lparr>livechat := upsert (update_row p updatedMessages) (livechat w)\<rparr>;
                          tr1 = tr @ [Emit (ToRoom (room_of (sp_convId p))) (MessageReceived message)]
                      in case map_of (conversations w1) (sp_convId p) of
                           None \<Rightarrow> (w1, tr1, None)
                         | Some conversation \<Rightarrow>
                             (let w2 = w1\<lparr>conversations :=
                                            AList.update (sp_convId p)
                                              (conversation\<lparr>conv_lastMessage := Some message,
                                                            conv_timestamp := now2 ev\<rparr>)
                                              (conversations w1)\<rparr>
                              in (w2, tr1 @ [Emit ToAll (ChatUpdated (snapshot w2))], None)))))"

definition message_send :: "world \<Rightarrow> sockid \<Rightarrow> send_payload \<Rightarrow> env \<Rightarrow> world \<times> effect list" where
  "message_send w sock p ev =
     catch sock ''Failed to send message'' (message_send_try w sock p ev)"

text \<open>
  The \<^verbatim>\<open>disconnect\<close> handler touches the two session Maps only; leaving the rooms is the
  transport's own work and not in this code.
\<close>

definition disconnect :: "world \<Rightarrow> sockid \<Rightarrow> world \<times> effect list" where
  "disconnect w sock =
     (let customerData = map_of (customers w) sock;
          agentData = map_of (agents w) sock;
          w1 = (if customerData \<noteq> None
                then w\<lparr>customers := AList.delete sock (customers w)\<rparr> else w);
          w2 = (if agentData \<noteq> None
                then w1\<lparr>agents := AList.delete sock (agents w1)\<rparr> else w1)
      in (w2, []))"

text \<open>
  The timer callback. The loop visits every entry of the Map once and deletes the
  visited one when it is stale.
\<close>

definition sweep_step ::
  "time \<Rightarrow> convid \<times> conversation \<Rightarrow> (convid \<times> conversation) list \<Rightarrow> (convid \<times> conversation) list" where
  "sweep_step oneHourAgo kv m =
     (if conv_timestamp (snd kv) < oneHourAgo then AList.delete (fst kv) m else m)"

definition sweep :: "world \<Rightarrow> time \<Rightarrow> world \<times> effect list" where
  "sweep w now =
     (let oneHourAgo = now - 60 * 60 * 1000;
          w' = w\<lparr>conversations := fold (sweep_step oneHourAgo) (conversations w) (conversations w)\<rparr>
      in (w', [Emit ToAll (ChatUpdated (snapshot w'))]))"

section \<open>Runs of the server\<close>

datatype inbound =
    CustomerJoin sockid join_payload env
  | AgentJoin sockid convid env
  | MessageSend sockid send_payload env
  | Disconnect sockid
  | Sweep time

fun handle :: "world \<Rightarrow> inbound \<Rightarrow> world \<times> effect list" where
  "handle w (CustomerJoin sock p ev) = customer_join w sock p ev"
| "handle w (AgentJoin sock c ev) = agent_join w sock c ev"
| "handle w (MessageSend sock p ev) = message_send w sock p ev"
| "handle w (Disconnect sock) = disconnect w sock"
| "handle w (Sweep now) = sweep w now"

text \<open>
  Events handled one after the other, each after the previous one has completed: no two
  handlers are interleaved at their store calls.
\<close>

fun run :: "world \<Rightarrow> inbound list \<Rightarrow> world \<times> effect list" where
  "run w [] = (w, [])"
| "run w (i # is) =
     (case handle w i of (w1, tr1) \<Rightarrow> (case run w1 is of (w2, tr2) \<Rightarrow> (w2, tr1 @ tr2)))"

section \<open>Observations\<close>

fun emits :: "effect list \<Rightarrow> (target \<times> event_out) list" where
  "emits [] = []"
| "emits (Emit t e # tr) = (t, e) # emits tr"
| "emits (x # tr) = emits tr"

fun store_calls :: "effect list \<Rightarrow> effect list" where
  "store_calls [] = []"
| "store_calls (Emit t e # tr) = store_calls tr"
| "store_calls (x # tr) = x # store_calls tr"

fun upserts :: "effect list \<Rightarrow> row list" where
  "upserts [] = []"
| "upserts (Upsert r # tr) = r # upserts tr"
| "upserts (x # tr) = upserts tr"

fun received :: "effect list \<Rightarrow> (target \<times> message) list" where
  "received [] = []"
| "received (Emit t (MessageReceived m) # tr) = (t, m) # received tr"
| "received (x # tr) = received tr"

fun chat_updates :: "effect list \<Rightarrow> conversation list list" where
  "chat_updates [] = []"
| "chat_updates (Emit t (ChatUpdated s) # tr) = s # chat_updates tr"
| "chat_updates (x # tr) = chat_updates tr"

text \<open>Who gets an emitted event, given the room membership.\<close>

fun receives :: "(sockid \<times> string) set \<Rightarrow> target \<Rightarrow> sockid \<Rightarrow> bool" where
  "receives rs (ToSocket s') s = (s = s')"
| "receives rs (ToRoom r) s = ((s, r) \<in> rs)"
| "receives rs ToAll s = True"

text \<open>The log a read of the store gives for a conversation, when the read succeeds.\<close>

definition stored_log :: "world \<Rightarrow> convid \<Rightarrow> message_log option" where
  "stored_log w c =
     (case getConversationMessages (livechat w) None c of Inl e \<Rightarrow> None | Inr lm \<Rightarrow> lm)"

section \<open>Notions of the statements\<close>

text \<open>A sequence of sends from one socket, and what each of them is given by the outside.\<close>

definition sends :: "sockid \<Rightarrow> (send_payload \<times> env) list \<Rightarrow> inbound list" where
  "sends sock pes = map (\<lambda>pe. MessageSend sock (fst pe) (snd pe)) pes"

definition accepted :: "send_payload \<times> env \<Rightarrow> bool" where
  "accepted pe = (select_error (snd pe) = None \<and> upsert_error (snd pe) = None)"

definition stamped :: "send_payload \<times> env \<Rightarrow> message" where
  "stamped pe = message_of (fst pe) (now1 (snd pe))"

text \<open>A customer join takes the conversation for new: its read gives the empty log.\<close>

definition creates :: "world \<Rightarrow> join_payload \<Rightarrow> env \<Rightarrow> bool" where
  "creates w p ev =
     (getConversationMessages (livechat w) (select_error ev) (jp_convId p)
        = Inr (Some \<lparr>messages = Some []\<rparr>))"

text \<open>
  A conversation with stored messages that the index does not hold, and whether a
  broadcast snapshot shows a conversation.
\<close>

definition has_history :: "row list \<Rightarrow> convid \<Rightarrow> bool" where
  "has_history tbl c =
     (case getConversationMessages tbl None c of
        Inr (Some lm) \<Rightarrow> messages_or_empty lm \<noteq> []
      | _ \<Rightarrow> False)"

definition index_keyed :: "world \<Rightarrow> bool" where
  "index_keyed w = list_all (\<lambda>kv. conv_convId (snd kv) = fst kv) (conversations w)"

definition forgotten :: "world \<Rightarrow> convid \<Rightarrow> bool" where
  "forgotten w c = (map_of (conversations w) c = None \<and> has_history (livechat w) c)"

definition shown :: "convid \<Rightarrow> conversation list \<Rightarrow> bool" where
  "shown c snap = (c \<in> set (map conv_convId snap))"

section \<open>Sample inputs\<close>

definition ev_ok :: env where
  "ev_ok = \<lparr>select_error = None, upsert_error = None, now1 = 1000, now2 = 1001\<rparr>"

definition ev_write_fails :: env where
  "ev_write_fails = \<lparr>select_error = None, upsert_error = Some ''timeout'', now1 = 1000, now2 = 1001\<rparr>"

definition ev_read_fails :: env where
  "ev_read_fails = \<lparr>select_error = Some ''unreachable'', upsert_error = None, now1 = 1000, now2 = 1001\<rparr>"

definition join_c1 :: join_payload where
  "join_c1 = \<lparr>jp_convId = ''c1'', jp_chatbotId = ''bot'', jp_userId = ''u1'',
              jp_customerEmail = ''a@b.c''\<rparr>"

definition hello :: send_payload where
  "hello = \<lparr>sp_convId = ''c1'', sp_chatbotId = ''bot'', sp_userId = ''u1'', sp_text = ''hello'',
            sp_sender = ''customer'', sp_timestamp = None\<rparr>"

definition both_world :: world where
  "both_world =
     \<lparr>customers = [(''s1'', \<lparr>cust_convId = ''c1'', cust_chatbotId = ''bot'', cust_userId = ''u1'',
                             cust_customerEmail = ''a@b.c''\<rparr>)],
      agents = [(''s1'', \<lparr>agent_convId = ''c1''\<rparr>)],
      conversations = [], rooms = {}, livechat = []\<rparr>"

definition stale_world :: world where
  "stale_world =
     \<lparr>customers = [], agents = [],
      conversations =
        [(''old'', \<lparr>conv_convId = ''old'', conv_chatbotId = ''bot'', conv_customerEmail = ''a@b.c'',
                     conv_timestamp = 2800000, conv_lastMessage = None\<rparr>),
         (''fresh'', \<lparr>conv_convId = ''fresh'', conv_chatbotId = ''bot'', conv_customerEmail = ''d@e.f'',
                       conv_timestamp = 8200000, conv_lastMessage = None\<rparr>)],
      rooms = {}, livechat = []\<rparr>"

definition two_sends :: "(send_payload \<times> env) list" where
  "two_sends = [(hello, ev_ok), (hello\<lparr>sp_text := ''again''\<rparr>, ev_ok\<lparr>now1 := 2000\<rparr>)]"

definition chat_world :: world where
  "chat_world =
     \<lparr>customers = [(''s1'', customer_of join_c1)],
      agents = [(''a1'', \<lparr>agent_convId = ''c1''\<rparr>)],
      conversations = [(''c1'', new_conversation join_c1 900)],
      rooms = {(''s1'', ''conv-c1''), (''a1'', ''conv-c1'')},
      livechat = [create_row join_c1 900]\<rparr>"

definition two_joins :: "inbound list" where
  "two_joins = [CustomerJoin ''s1'' join_c1 ev_ok, CustomerJoin ''s2'' join_c1 (ev_ok\<lparr>now1 := 3000, now2 := 3001\<rparr>)]"

definition restart_world :: world where
  "restart_world =
     \<lparr>customers = [], agents = [], conversations = [], rooms = {},
      livechat = [(create_row join_c1 900)
                    \<lparr>live_message := Some \<lparr>messages = Some [message_of hello 950]\<rparr>\<rparr>]\<rparr>"

definition comeback :: "inbound list" where
  "comeback = [CustomerJoin ''s1'' join_c1 ev_ok, MessageSend ''s1'' hello ev_ok, Sweep 5000]"

section \<open>Observations of a concatenated trace\<close>

lemma emits_append: "emits (a @ b) = emits a @ emits b"
  by (induction a rule: emits.induct) simp_all

lemma received_append: "received (a @ b) = received a @ received b"
  by (induction a rule: received.induct) simp_all

lemma chat_updates_append: "chat_updates (a @ b) = chat_updates a @ chat_updates b"
  by (induction a rule: chat_updates.induct) simp_all

lemma upserts_append: "upserts (a @ b) = upserts a @ upserts b"
  by (induction a rule: upserts.induct) simp_all

lemma store_calls_append: "store_calls (a @ b) = store_calls a @ store_calls b"
  by (induction a rule: store_calls.induct) simp_all

lemma filter_absent:
  "c \<notin> set (map live_chat_id tbl) \<Longrightarrow> filter (\<lambda>r. live_chat_id r = c) tbl = []"
  by (auto simp: filter_empty_conv)

section \<open>A failed write is not broadcast\<close>

text \<open>
  C1. When the upsert of \<^verbatim>\<open>message:send\<close> comes back with an error, the handler publishes
  no \<^verbatim>\<open>message:received\<close> and no \<^verbatim>\<open>chat:updated\<close>; the only event it emits is the error
  to the sending socket, and the state (the index with it) is as before.
\<close>

theorem send_write_failure_not_broadcast:
  assumes "upsert_error ev = Some e"
  shows "received (snd (message_send w sock p ev)) = []
       \<and> chat_updates (snd (message_send w sock p ev)) = []
       \<and> emits (snd (message_send w sock p ev)) =
           [(ToSocket sock, ErrorEvent ''Failed to send message'')]
       \<and> fst (message_send w sock p ev) = w"
  using assms
  by (simp add: message_send_def message_send_try_def catch_def Let_def
      split: sum.splits option.splits)

theorem send_write_failure_not_broadcast_witness:
  "upsert_error ev_write_fails = Some ''timeout''
   \<and> received (snd (message_send init_world ''s1'' hello ev_write_fails)) = []
   \<and> chat_updates (snd (message_send init_world ''s1'' hello ev_write_fails)) = []
   \<and> emits (snd (message_send init_world ''s1'' hello ev_write_fails)) =
       [(ToSocket ''s1'', ErrorEvent ''Failed to send message'')]
   \<and> fst (message_send init_world ''s1'' hello ev_write_fails) = init_world"
proof -
  have h: "upsert_error ev_write_fails = Some ''timeout''"
    by (simp add: ev_write_fails_def)
  show ?thesis
    using h send_write_failure_not_broadcast [OF h, of init_world "''s1''" hello] by simp
qed

section \<open>Reading the log\<close>

text \<open>
  C8. \<^verbatim>\<open>getConversationMessages\<close> gives the empty log, not an error, when the table has
  no row for the id, and it throws exactly when the select comes back with an error; what
  it throws is that error.
\<close>

theorem read_log_empty_or_store_error:
  "(c \<notin> set (map live_chat_id tbl) \<longrightarrow>
      getConversationMessages tbl None c = Inr (Some \<lparr>messages = Some []\<rparr>))
   \<and> ((\<exists>err. getConversationMessages tbl fault c = Inl err) \<longleftrightarrow> fault \<noteq> None)
   \<and> (fault = Some e \<longrightarrow> getConversationMessages tbl fault c = Inl (StoreError e))"
  using filter_absent [of c tbl]
  by (auto simp: getConversationMessages_def getConversationMessages_of_def select_livechat_def
      split: option.splits list.splits)

theorem read_log_empty_or_store_error_witness:
  "''c1'' \<notin> set (map live_chat_id [create_row (join_c1\<lparr>jp_convId := ''c2''\<rparr>) 0])
   \<and> getConversationMessages [create_row (join_c1\<lparr>jp_convId := ''c2''\<rparr>) 0] None ''c1''
       = Inr (Some \<lparr>messages = Some []\<rparr>)
   \<and> select_error ev_read_fails = Some ''unreachable''
   \<and> getConversationMessages [create_row (join_c1\<lparr>jp_convId := ''c2''\<rparr>) 0]
        (select_error ev_read_fails) ''c1'' = Inl (StoreError ''unreachable'')"
proof -
  have h1: "''c1'' \<notin> set (map live_chat_id [create_row (join_c1\<lparr>jp_convId := ''c2''\<rparr>) 0])"
    by (simp add: create_row_def join_c1_def)
  have h2: "select_error ev_read_fails = Some ''unreachable''"
    by (simp add: ev_read_fails_def)
  show ?thesis
    using h1 h2
      read_log_empty_or_store_error
        [of "''c1''" "[create_row (join_c1\<lparr>jp_convId := ''c2''\<rparr>) 0]"
            "select_error ev_read_fails" "''unreachable''"]
    by simp
qed

section \<open>Disconnect\<close>

text \<open>
  C9. After the \<^verbatim>\<open>disconnect\<close> handler has run for a socket, neither Map of the registry
  has an entry for it, whichever of the two it had before; when it had neither, the handler
  changes nothing. It emits nothing.
\<close>

theorem disconnect_removes_sessions:
  "map_of (customers (fst (disconnect w C))) C = None
   \<and> map_of (agents (fst (disconnect w C))) C = None
   \<and> snd (disconnect w C) = []
   \<and> (map_of (customers w) C = None \<and> map_of (agents w) C = None \<longrightarrow>
        fst (disconnect w C) = w)"
  by (simp add: disconnect_def Let_def AList.delete_conv')

theorem disconnect_removes_sessions_witness:
  "map_of (customers both_world) ''s1'' \<noteq> None
   \<and> map_of (agents both_world) ''s1'' \<noteq> None
   \<and> map_of (customers (fst (disconnect both_world ''s1''))) ''s1'' = None
   \<and> map_of (agents (fst (disconnect both_world ''s1''))) ''s1'' = None
   \<and> map_of (customers init_world) ''s1'' = None
   \<and> map_of (agents init_world) ''s1'' = None
   \<and> fst (disconnect init_world ''s1'') = init_world"
  using disconnect_removes_sessions [of both_world "''s1''"]
    disconnect_removes_sessions [of init_world "''s1''"]
  by (simp add: both_world_def init_world_def)

section \<open>The eviction sweep\<close>

text \<open>
  The loop of the timer callback deletes by key: an entry stays when no visited entry with
  its key is stale.
\<close>

lemma fold_sweep_step:
  "fold (sweep_step t) xs m =
     filter (\<lambda>kv. \<not> (\<exists>x \<in> set xs. fst x = fst kv \<and> conv_timestamp (snd x) < t)) m"
proof (induction xs arbitrary: m)
  case Nil
  then show ?case by simp
next
  case (Cons x xs)
  show ?case
  proof (cases "conv_timestamp (snd x) < t")
    case True
    then have "sweep_step t x m = AList.delete (fst x) m"
      by (simp add: sweep_step_def)
    then have "fold (sweep_step t) (x # xs) m = fold (sweep_step t) xs (AList.delete (fst x) m)"
      by simp
    also have "\<dots> = filter (\<lambda>kv. \<not> (\<exists>y \<in> set xs. fst y = fst kv \<and> conv_timestamp (snd y) < t))
                       (filter (\<lambda>kv. fst kv \<noteq> fst x) m)"
      by (simp add: Cons.IH AList.delete_eq case_prod_unfold eq_commute)
    also have "\<dots> = filter (\<lambda>kv. \<not> (\<exists>y \<in> set (x # xs). fst y = fst kv \<and> conv_timestamp (snd y) < t)) m"
      using True by (auto intro: filter_cong)
    finally show ?thesis .
  next
    case False
    then have "sweep_step t x m = m"
      by (simp add: sweep_step_def)
    then have "fold (sweep_step t) (x # xs) m = fold (sweep_step t) xs m"
      by simp
    also have "\<dots> = filter (\<lambda>kv. \<not> (\<exists>y \<in> set xs. fst y = fst kv \<and> conv_timestamp (snd y) < t)) m"
      by (rule Cons.IH)
    also have "\<dots> = filter (\<lambda>kv. \<not> (\<exists>y \<in> set (x # xs). fst y = fst kv \<and> conv_timestamp (snd y) < t)) m"
      using False by (auto intro: filter_cong)
    finally show ?thesis .
  qed
qed

text \<open>The keys of a Map are distinct, and then the loop keeps exactly the entries that are not stale.\<close>

lemma sweep_distinct:
  assumes "distinct (map fst m)"
  shows "fold (sweep_step t) m m = filter (\<lambda>kv. t \<le> conv_timestamp (snd kv)) m"
proof -
  have eq: "(\<exists>x \<in> set m. fst x = fst kv \<and> conv_timestamp (snd x) < t) \<longleftrightarrow> conv_timestamp (snd kv) < t"
    if "kv \<in> set m" for kv
  proof
    assume "\<exists>x \<in> set m. fst x = fst kv \<and> conv_timestamp (snd x) < t"
    then obtain x where x: "x \<in> set m" "fst x = fst kv" "conv_timestamp (snd x) < t" by blast
    from assms x(1,2) that have "x = kv"
      by (metis eq_key_imp_eq_value prod.collapse)
    with x(3) show "conv_timestamp (snd kv) < t" by simp
  next
    assume "conv_timestamp (snd kv) < t"
    with that show "\<exists>x \<in> set m. fst x = fst kv \<and> conv_timestamp (snd x) < t" by blast
  qed
  have "filter (\<lambda>kv. \<not> (\<exists>x \<in> set m. fst x = fst kv \<and> conv_timestamp (snd x) < t)) m
        = filter (\<lambda>kv. t \<le> conv_timestamp (snd kv)) m"
    by (rule filter_cong [OF refl]) (simp only: eq not_less)
  then show ?thesis
    by (simp only: fold_sweep_step)
qed

text \<open>
  C6. A sweep at time \<open>now\<close> keeps, in their order, exactly the summaries whose timestamp is
  not before \<open>now - 3600000\<close> (one hour, in milliseconds) and removes the others; it leaves
  the table and the registry alone, makes no store call, and broadcasts the index it leaves.
\<close>

theorem sweep_evicts_older_than_one_hour:
  assumes "distinct (map fst (conversations w))"
  shows "conversations (fst (sweep w now)) =
           filter (\<lambda>kv. now - 3600000 \<le> conv_timestamp (snd kv)) (conversations w)
       \<and> livechat (fst (sweep w now)) = livechat w
       \<and> customers (fst (sweep w now)) = customers w
       \<and> agents (fst (sweep w now)) = agents w
       \<and> store_calls (snd (sweep w now)) = []
       \<and> snd (sweep w now) = [Emit ToAll (ChatUpdated (snapshot (fst (sweep w now))))]"
  using sweep_distinct [OF assms, of "now - 3600000"]
  by (simp add: sweep_def Let_def)

text \<open>At 10000000 the summary stamped two hours earlier goes and the one stamped 30 minutes earlier stays.\<close>

theorem sweep_evicts_older_than_one_hour_witness:
  "distinct (map fst (conversations stale_world))
   \<and> map fst (conversations stale_world) = [''old'', ''fresh'']
   \<and> map (conv_timestamp \<circ> snd) (conversations stale_world) = [10000000 - 7200000, 10000000 - 1800000]
   \<and> map fst (conversations (fst (sweep stale_world 10000000))) = [''fresh'']
   \<and> livechat (fst (sweep stale_world 10000000)) = livechat stale_world
   \<and> store_calls (snd (sweep stale_world 10000000)) = []"
proof -
  have h: "distinct (map fst (conversations stale_world))"
    by (simp add: stale_world_def)
  show ?thesis
    using h sweep_evicts_older_than_one_hour [OF h, of 10000000]
    by (simp add: stale_world_def)
qed

section \<open>The table after an upsert\<close>

lemma merge_row_key: "live_chat_id (merge_row r x) = live_chat_id x"
  by (simp add: merge_row_def)

lemma upsert_keys:
  "map live_chat_id (upsert r tbl) =
     (if live_chat_id r \<in> set (map live_chat_id tbl) then map live_chat_id tbl
      else map live_chat_id tbl @ [live_chat_id r])"
  by (simp add: upsert_def merge_row_key cong: if_cong)

lemma upsert_distinct:
  "distinct (map live_chat_id tbl) \<Longrightarrow> distinct (map live_chat_id (upsert r tbl))"
  by (simp add: upsert_keys)

lemma upsert_map_other:
  "live_chat_id r \<noteq> c \<Longrightarrow>
     filter (\<lambda>x. live_chat_id x = c)
       (map (\<lambda>x. if live_chat_id x = live_chat_id r then merge_row r x else x) tbl)
     = filter (\<lambda>x. live_chat_id x = c) tbl"
  by (induction tbl) (auto simp: merge_row_key)

lemma upsert_other:
  "live_chat_id r \<noteq> c \<Longrightarrow>
     filter (\<lambda>x. live_chat_id x = c) (upsert r tbl) = filter (\<lambda>x. live_chat_id x = c) tbl"
  by (simp add: upsert_def upsert_map_other)

lemma run_Cons_fst: "fst (run w (i # is)) = fst (run (fst (handle w i)) is)"
  by (simp split: prod.splits)

lemma run_Cons_snd: "snd (run w (i # is)) = snd (handle w i) @ snd (run (fst (handle w i)) is)"
  by (simp split: prod.splits)

lemma upsert_present:
  "filter (\<lambda>x. live_chat_id x = live_chat_id r)
     (map (\<lambda>x. if live_chat_id x = live_chat_id r then merge_row r x else x) tbl)
   = map (merge_row r) (filter (\<lambda>x. live_chat_id x = live_chat_id r) tbl)"
  by (induction tbl) (auto simp: merge_row_key)

lemma upsert_same:
  "filter (\<lambda>x. live_chat_id x = live_chat_id r) (upsert r tbl) =
     (if live_chat_id r \<in> set (map live_chat_id tbl)
      then map (merge_row r) (filter (\<lambda>x. live_chat_id x = live_chat_id r) tbl)
      else [r])"
  using filter_absent [of "live_chat_id r" tbl]
  by (simp add: upsert_def upsert_present)

lemma read_after_upsert:
  assumes "live_message r = Some lm"
  shows "getConversationMessages (upsert r tbl) None (live_chat_id r) = Inr (Some lm)"
proof (cases "live_chat_id r \<in> set (map live_chat_id tbl)")
  case True
  then obtain x xs where "filter (\<lambda>x. live_chat_id x = live_chat_id r) tbl = x # xs"
    by (cases "filter (\<lambda>x. live_chat_id x = live_chat_id r) tbl") (auto simp: filter_empty_conv)
  with True assms show ?thesis
    by (simp add: getConversationMessages_def getConversationMessages_of_def select_livechat_def
        upsert_same merge_row_def merge_opt_def)
next
  case False
  with assms show ?thesis
    by (simp add: getConversationMessages_def getConversationMessages_of_def select_livechat_def
        upsert_same)
qed

lemma read_after_upsert_other:
  "live_chat_id r \<noteq> c \<Longrightarrow>
     getConversationMessages (upsert r tbl) fault c = getConversationMessages tbl fault c"
  by (simp add: getConversationMessages_def select_livechat_def upsert_other split: option.splits)

lemma stored_log_read:
  "stored_log w c = Some lm \<longleftrightarrow> getConversationMessages (livechat w) None c = Inr (Some lm)"
  by (auto simp: stored_log_def getConversationMessages_def getConversationMessages_of_def select_livechat_def
      split: sum.splits option.splits list.splits)

text \<open>One successful send.\<close>

lemma send_ok:
  assumes "getConversationMessages (livechat w) None (sp_convId p) = Inr (Some cur)"
    and "select_error ev = None" and "upsert_error ev = None"
  shows "livechat (fst (message_send w sock p ev)) =
           upsert (update_row p (messages_or_empty cur @ [message_of p (now1 ev)])) (livechat w)"
    and "upserts (snd (message_send w sock p ev)) =
           [update_row p (messages_or_empty cur @ [message_of p (now1 ev)])]"
  using assms
  by (simp_all add: message_send_def message_send_try_def catch_def Let_def upserts_append
      split: option.splits)

lemma send_appends:
  assumes "stored_log w (sp_convId p) = Some cur"
    and "select_error ev = None" and "upsert_error ev = None"
  shows "stored_log (fst (message_send w sock p ev)) (sp_convId p) =
           Some \<lparr>messages = Some (messages_or_empty cur @ [message_of p (now1 ev)])\<rparr>"
proof -
  from assms(1) have rd: "getConversationMessages (livechat w) None (sp_convId p) = Inr (Some cur)"
    by (simp add: stored_log_read)
  have "getConversationMessages
          (upsert (update_row p (messages_or_empty cur @ [message_of p (now1 ev)])) (livechat w))
          None (live_chat_id (update_row p (messages_or_empty cur @ [message_of p (now1 ev)])))
        = Inr (Some \<lparr>messages = Some (messages_or_empty cur @ [message_of p (now1 ev)])\<rparr>)"
    by (rule read_after_upsert) (simp add: update_row_def)
  then show ?thesis
    by (simp add: stored_log_read send_ok(1) [OF rd assms(2,3)] update_row_def)
qed

section \<open>Sends in sequence\<close>

lemma read_fault: "getConversationMessages tbl (Some e) c = Inl (StoreError e)"
  by (simp add: getConversationMessages_def getConversationMessages_of_def select_livechat_def)

lemma send_failed:
  assumes "select_error ev \<noteq> None \<or> upsert_error ev \<noteq> None"
  shows "fst (message_send w sock p ev) = w"
  using assms
  by (auto simp: message_send_def message_send_try_def catch_def Let_def read_fault
      split: sum.splits option.splits)

lemma sends_append_log:
  assumes "list_all (\<lambda>pe. sp_convId (fst pe) = c) pes" and "stored_log w c = Some cur"
  shows "map_option messages_or_empty (stored_log (fst (run w (sends sock pes))) c) =
           Some (messages_or_empty cur @ map stamped (filter accepted pes))"
  using assms
proof (induction pes arbitrary: w cur)
  case Nil
  then show ?case
    by (simp add: sends_def)
next
  case (Cons pe pes)
  from Cons.prems(1) have pe: "sp_convId (fst pe) = c"
    and rest: "list_all (\<lambda>pe. sp_convId (fst pe) = c) pes"
    by simp_all
  let ?w1 = "fst (message_send w sock (fst pe) (snd pe))"
  have unfold: "fst (run w (sends sock (pe # pes))) = fst (run ?w1 (sends sock pes))"
    by (simp add: sends_def run_Cons_fst del: run.simps)
  show ?case
  proof (cases "accepted pe")
    case True
    let ?cur1 = "\<lparr>messages = Some (messages_or_empty cur @ [stamped pe])\<rparr>"
    have step: "stored_log ?w1 c = Some ?cur1"
      using send_appends [of w "fst pe" cur "snd pe" sock] Cons.prems(2) pe True
      by (simp add: accepted_def stamped_def)
    have "map_option messages_or_empty (stored_log (fst (run ?w1 (sends sock pes))) c) =
            Some (messages_or_empty ?cur1 @ map stamped (filter accepted pes))"
      by (rule Cons.IH [OF rest step])
    moreover have "messages_or_empty ?cur1 = messages_or_empty cur @ [stamped pe]"
      by (simp add: messages_or_empty_def)
    ultimately show ?thesis
      using True unfold by simp
  next
    case False
    then have "?w1 = w"
      by (intro send_failed) (simp add: accepted_def)
    then have "map_option messages_or_empty (stored_log (fst (run ?w1 (sends sock pes))) c) =
            Some (messages_or_empty cur @ map stamped (filter accepted pes))"
      using Cons.IH [OF rest Cons.prems(2)] by simp
    then show ?thesis
      using False unfold by simp
  qed
qed

text \<open>
  C5. Sends of one socket to one conversation, handled one after the other with no other
  writer of the table, leave as the stored log the log that was there followed by the
  messages of the sends that went through, in the order of issue; when none fails these are
  all of them. The log a send writes is the log it has read with its message at the end.
\<close>

theorem sends_keep_issue_order:
  assumes "list_all (\<lambda>pe. sp_convId (fst pe) = c) pes" and "stored_log w c = Some cur"
  shows "map_option messages_or_empty (stored_log (fst (run w (sends sock pes))) c) =
           Some (messages_or_empty cur @ map stamped (filter accepted pes))
       \<and> (list_all accepted pes \<longrightarrow>
            map_option messages_or_empty (stored_log (fst (run w (sends sock pes))) c) =
              Some (messages_or_empty cur @ map stamped pes))
       \<and> (\<forall>p ev lm. getConversationMessages (livechat w) (select_error ev) (sp_convId p) = Inr (Some lm) \<longrightarrow>
            upserts (snd (message_send w sock p ev)) =
              [update_row p (messages_or_empty lm @ [message_of p (now1 ev)])])"
proof -
  have a: "map_option messages_or_empty (stored_log (fst (run w (sends sock pes))) c) =
           Some (messages_or_empty cur @ map stamped (filter accepted pes))"
    by (rule sends_append_log [OF assms])
  have "filter accepted pes = pes" if "list_all accepted pes"
    using that by (simp add: list_all_iff)
  with a have b: "map_option messages_or_empty (stored_log (fst (run w (sends sock pes))) c) =
              Some (messages_or_empty cur @ map stamped pes)" if "list_all accepted pes"
    using that by simp
  have c: "upserts (snd (message_send w sock p ev)) =
              [update_row p (messages_or_empty lm @ [message_of p (now1 ev)])]"
    if "getConversationMessages (livechat w) (select_error ev) (sp_convId p) = Inr (Some lm)"
    for p ev lm
    using that
    by (simp add: message_send_def message_send_try_def catch_def Let_def upserts_append
        split: option.splits)
  from a b c show ?thesis by blast
qed

theorem sends_keep_issue_order_witness:
  "list_all (\<lambda>pe. sp_convId (fst pe) = ''c1'') two_sends
   \<and> stored_log init_world ''c1'' = Some \<lparr>messages = Some []\<rparr>
   \<and> list_all accepted two_sends
   \<and> map_option messages_or_empty (stored_log (fst (run init_world (sends ''s1'' two_sends))) ''c1'') =
       Some [\<lparr>msg_text = ''hello'', msg_sender = ''customer'', msg_timestamp = 1000, msg_convId = ''c1''\<rparr>,
             \<lparr>msg_text = ''again'', msg_sender = ''customer'', msg_timestamp = 2000, msg_convId = ''c1''\<rparr>]"
proof -
  have h1: "list_all (\<lambda>pe. sp_convId (fst pe) = ''c1'') two_sends"
    by (simp add: two_sends_def hello_def)
  have h2: "stored_log init_world ''c1'' = Some \<lparr>messages = Some []\<rparr>"
    by (simp add: stored_log_def init_world_def getConversationMessages_def
        getConversationMessages_of_def select_livechat_def)
  have h3: "list_all accepted two_sends"
    by (simp add: two_sends_def accepted_def ev_ok_def)
  have m: "map stamped two_sends =
       [\<lparr>msg_text = ''hello'', msg_sender = ''customer'', msg_timestamp = 1000, msg_convId = ''c1''\<rparr>,
        \<lparr>msg_text = ''again'', msg_sender = ''customer'', msg_timestamp = 2000, msg_convId = ''c1''\<rparr>]"
    by (simp add: two_sends_def stamped_def message_of_def hello_def ev_ok_def)
  show ?thesis
    using h1 h2 h3 m sends_keep_issue_order [OF h1 h2, of "''s1''"]
    by (simp add: messages_or_empty_def)
qed

section \<open>Handlers that end with an error\<close>

text \<open>
  The write of \<^verbatim>\<open>customer:join\<close> comes after the session is put into the Map: when it
  fails, the socket that is told that the join failed has a session.
\<close>

theorem join_write_failure_keeps_session:
  "snd (snd (customer_join_try init_world ''s1'' join_c1 ev_write_fails)) = Some (StoreError ''timeout'')
   \<and> map_of (customers init_world) ''s1'' = None
   \<and> map_of (customers (fst (customer_join init_world ''s1'' join_c1 ev_write_fails))) ''s1''
       = Some (customer_of join_c1)"
  by (simp add: customer_join_def customer_join_try_def catch_def init_world_def join_c1_def
      ev_write_fails_def getConversationMessages_def getConversationMessages_of_def
      select_livechat_def Let_def)

lemma send_throws:
  assumes "snd (snd (message_send_try w sock p ev)) = Some err"
  shows "fst (message_send w sock p ev) = w"
    and "emits (snd (message_send w sock p ev)) = [(ToSocket sock, ErrorEvent ''Failed to send message'')]"
  using assms
  by (auto simp: message_send_def message_send_try_def catch_def Let_def emits_append
      split: sum.splits option.splits)

lemma agent_throws:
  assumes "snd (snd (agent_join_try w sock c ev)) = Some err"
  shows "fst (agent_join w sock c ev) = w"
    and "emits (snd (agent_join w sock c ev)) = [(ToSocket sock, ErrorEvent ''Failed to join conversation'')]"
  using assms
  by (auto simp: agent_join_def agent_join_try_def catch_def split: sum.splits)

lemma customer_throws:
  assumes "snd (snd (customer_join_try w sock p ev)) = Some err"
  shows "conversations (fst (customer_join w sock p ev)) = conversations w"
    and "agents (fst (customer_join w sock p ev)) = agents w"
    and "rooms (fst (customer_join w sock p ev)) = rooms w"
    and "livechat (fst (customer_join w sock p ev)) = livechat w"
    and "emits (snd (customer_join w sock p ev)) = [(ToSocket sock, ErrorEvent ''Failed to join chat session'')]"
  using assms
  by (auto simp: customer_join_def customer_join_try_def join_finish_def catch_def Let_def emits_append
      split: sum.splits option.splits if_splits)

lemma customer_read_throws:
  assumes "select_error ev \<noteq> None"
  shows "fst (customer_join w sock p ev) = w"
  using assms
  by (auto simp: customer_join_def customer_join_try_def catch_def getConversationMessages_def
      getConversationMessages_of_def select_livechat_def)

lemma read_None_not_Inl: "getConversationMessages tbl None c \<noteq> Inl x"
  by (simp add: getConversationMessages_def getConversationMessages_of_def select_livechat_def
      split: list.splits)

lemma customer_throws_session:
  assumes "snd (snd (customer_join_try w sock p ev)) = Some (StoreError e)"
  shows "customers (fst (customer_join w sock p ev)) =
           (if select_error ev = None then AList.update sock (customer_of p) (customers w)
            else customers w)"
proof (cases "select_error ev")
  case None
  with assms show ?thesis
    by (auto simp: customer_join_def customer_join_try_def join_finish_def catch_def Let_def
        read_None_not_Inl split: sum.splits option.splits if_splits)
next
  case (Some x)
  then show ?thesis
    by (simp add: customer_read_throws)
qed

text \<open>
  C2 (as the code has it). When the handler of \<^verbatim>\<open>message:send\<close> or \<^verbatim>\<open>agent:join\<close> ends
  with a store error, the whole state is as before and the only event emitted is the error
  to the socket of the event. The same holds for \<^verbatim>\<open>customer:join\<close> when its read fails.
  When \<^verbatim>\<open>customer:join\<close> ends with a store error of its write, the index, the agent
  sessions, the rooms and the table are as before, the customer sessions are those of before
  with the session of this join set for its socket and every other entry as it was, and the
  only event emitted is the error to that socket.
\<close>

theorem store_failure_drops_event:
  "(snd (snd (message_send_try w sock sp ev)) = Some (StoreError e) \<longrightarrow>
      fst (message_send w sock sp ev) = w
      \<and> emits (snd (message_send w sock sp ev)) = [(ToSocket sock, ErrorEvent ''Failed to send message'')])
   \<and> (snd (snd (agent_join_try w sock c ev)) = Some (StoreError e) \<longrightarrow>
      fst (agent_join w sock c ev) = w
      \<and> emits (snd (agent_join w sock c ev)) = [(ToSocket sock, ErrorEvent ''Failed to join conversation'')])
   \<and> (snd (snd (customer_join_try w sock jp ev)) = Some (StoreError e) \<longrightarrow>
      conversations (fst (customer_join w sock jp ev)) = conversations w
      \<and> agents (fst (customer_join w sock jp ev)) = agents w
      \<and> rooms (fst (customer_join w sock jp ev)) = rooms w
      \<and> livechat (fst (customer_join w sock jp ev)) = livechat w
      \<and> customers (fst (customer_join w sock jp ev)) =
          (if select_error ev = None then AList.update sock (customer_of jp) (customers w)
           else customers w)
      \<and> emits (snd (customer_join w sock jp ev)) = [(ToSocket sock, ErrorEvent ''Failed to join chat session'')])
   \<and> (select_error ev \<noteq> None \<longrightarrow> fst (customer_join w sock jp ev) = w)"
  using send_throws [of w sock sp ev "StoreError e"] agent_throws [of w sock c ev "StoreError e"]
    customer_throws [of w sock jp ev "StoreError e"] customer_read_throws [of ev w sock jp]
    customer_throws_session [of w sock jp ev e]
  by blast

theorem store_failure_drops_event_witness:
  "snd (snd (message_send_try init_world ''s1'' hello ev_write_fails)) = Some (StoreError ''timeout'')
   \<and> fst (message_send init_world ''s1'' hello ev_write_fails) = init_world
   \<and> snd (snd (customer_join_try both_world ''s2'' join_c1 ev_write_fails)) = Some (StoreError ''timeout'')
   \<and> conversations (fst (customer_join both_world ''s2'' join_c1 ev_write_fails)) = conversations both_world
   \<and> customers (fst (customer_join both_world ''s2'' join_c1 ev_write_fails))
       = customers both_world @ [(''s2'', customer_of join_c1)]
   \<and> emits (snd (customer_join both_world ''s2'' join_c1 ev_write_fails))
       = [(ToSocket ''s2'', ErrorEvent ''Failed to join chat session'')]
   \<and> snd (snd (agent_join_try init_world ''s1'' ''c1'' ev_read_fails)) = Some (StoreError ''unreachable'')
   \<and> fst (agent_join init_world ''s1'' ''c1'' ev_read_fails) = init_world
   \<and> select_error ev_read_fails \<noteq> None
   \<and> fst (customer_join init_world ''s1'' join_c1 ev_read_fails) = init_world"
proof -
  have h1: "snd (snd (message_send_try init_world ''s1'' hello ev_write_fails)) = Some (StoreError ''timeout'')"
    by (simp add: message_send_try_def init_world_def ev_write_fails_def getConversationMessages_def
        getConversationMessages_of_def select_livechat_def Let_def)
  have h2: "snd (snd (customer_join_try both_world ''s2'' join_c1 ev_write_fails)) = Some (StoreError ''timeout'')"
    by (simp add: customer_join_try_def both_world_def ev_write_fails_def getConversationMessages_def
        getConversationMessages_of_def select_livechat_def Let_def)
  have h3: "snd (snd (agent_join_try init_world ''s1'' ''c1'' ev_read_fails)) = Some (StoreError ''unreachable'')"
    by (simp add: agent_join_try_def init_world_def ev_read_fails_def getConversationMessages_def
        getConversationMessages_of_def select_livechat_def)
  have h4: "select_error ev_read_fails \<noteq> None"
    by (simp add: ev_read_fails_def)
  have h5: "select_error ev_write_fails = None"
       "AList.update ''s2'' (customer_of join_c1) (customers both_world)
          = customers both_world @ [(''s2'', customer_of join_c1)]"
    by (simp_all add: ev_write_fails_def both_world_def)
  show ?thesis
    using h1 h2 h3 h4
      store_failure_drops_event [of init_world "''s1''" hello ev_write_fails "''timeout''" "''c1''" join_c1]
      store_failure_drops_event [of both_world "''s2''" hello ev_write_fails "''timeout''" "''c1''" join_c1]
      store_failure_drops_event [of init_world "''s1''" hello ev_read_fails "''unreachable''" "''c1''" join_c1]
    by (simp add: h5)
qed

section \<open>A send that is stored\<close>

text \<open>
  A send to a conversation that the index does not hold: the message is stored and
  published to the room, and no \<^verbatim>\<open>chat:updated\<close> follows.
\<close>

theorem send_outside_index_no_chat_updated:
  "snd (snd (message_send_try init_world ''s1'' hello ev_ok)) = None
   \<and> upserts (snd (message_send init_world ''s1'' hello ev_ok)) = [update_row hello [message_of hello 1000]]
   \<and> received (snd (message_send init_world ''s1'' hello ev_ok)) = [(ToRoom ''conv-c1'', message_of hello 1000)]
   \<and> chat_updates (snd (message_send init_world ''s1'' hello ev_ok)) = []"
  by (simp add: message_send_def message_send_try_def catch_def init_world_def hello_def ev_ok_def
      getConversationMessages_def getConversationMessages_of_def select_livechat_def Let_def
      messages_or_empty_def room_of_def)

text \<open>
  C4 (as the code has it). When the read and the write of a \<^verbatim>\<open>message:send\<close> succeed,
  the handler reads, writes the log with the message appended, publishes the message to
  the room of the conversation, which every socket in that room receives, and then, when
  the index holds the conversation, sets its last message and timestamp and broadcasts the
  index to all; when the index does not hold it, the index stays and nothing is broadcast.
\<close>

theorem send_success_broadcasts:
  assumes "getConversationMessages (livechat w) (select_error ev) (sp_convId p) = Inr (Some cur)"
    and "upsert_error ev = None"
  shows "snd (message_send w sock p ev) =
           [Select (sp_convId p),
            Upsert (update_row p (messages_or_empty cur @ [message_of p (now1 ev)])),
            Emit (ToRoom (room_of (sp_convId p))) (MessageReceived (message_of p (now1 ev)))]
           @ (case map_of (conversations w) (sp_convId p) of
                None \<Rightarrow> []
              | Some conv \<Rightarrow> [Emit ToAll (ChatUpdated (snapshot (fst (message_send w sock p ev))))])
       \<and> conversations (fst (message_send w sock p ev)) =
           (case map_of (conversations w) (sp_convId p) of
              None \<Rightarrow> conversations w
            | Some conv \<Rightarrow>
                AList.update (sp_convId p)
                  (conv\<lparr>conv_lastMessage := Some (message_of p (now1 ev)), conv_timestamp := now2 ev\<rparr>)
                  (conversations w))
       \<and> rooms (fst (message_send w sock p ev)) = rooms w
       \<and> receives (rooms w) (ToRoom (room_of (sp_convId p))) s = ((s, room_of (sp_convId p)) \<in> rooms w)
       \<and> receives (rooms w) ToAll s"
  using assms
  by (simp add: message_send_def message_send_try_def catch_def Let_def split: option.splits)

theorem send_success_broadcasts_witness:
  "getConversationMessages (livechat chat_world) (select_error ev_ok) (sp_convId hello)
     = Inr (Some \<lparr>messages = Some []\<rparr>)
   \<and> upsert_error ev_ok = None
   \<and> map_of (conversations chat_world) (sp_convId hello) = Some (new_conversation join_c1 900)
   \<and> snd (message_send chat_world ''s1'' hello ev_ok) =
       [Select ''c1'',
        Upsert (update_row hello [message_of hello 1000]),
        Emit (ToRoom ''conv-c1'') (MessageReceived (message_of hello 1000)),
        Emit ToAll (ChatUpdated
          [(new_conversation join_c1 900)\<lparr>conv_lastMessage := Some (message_of hello 1000),
                                          conv_timestamp := 1001\<rparr>])]
   \<and> receives (rooms chat_world) (ToRoom ''conv-c1'') ''a1''"
proof -
  have h1: "getConversationMessages (livechat chat_world) (select_error ev_ok) (sp_convId hello)
     = Inr (Some \<lparr>messages = Some []\<rparr>)"
    by (simp add: chat_world_def ev_ok_def hello_def join_c1_def create_row_def
        getConversationMessages_def getConversationMessages_of_def select_livechat_def)
  have h2: "upsert_error ev_ok = None"
    by (simp add: ev_ok_def)
  have h3: "map_of (conversations chat_world) (sp_convId hello) = Some (new_conversation join_c1 900)"
    by (simp add: chat_world_def hello_def)
  have h4: "conversations chat_world = [(''c1'', new_conversation join_c1 900)]"
       "sp_convId hello = ''c1''" "now1 ev_ok = 1000" "now2 ev_ok = 1001"
       "rooms chat_world = {(''s1'', ''conv-c1''), (''a1'', ''conv-c1'')}"
    by (simp_all add: chat_world_def hello_def ev_ok_def)
  show ?thesis
    using h1 h2 h3 send_success_broadcasts [OF h1 h2, of "''s1''" "''a1''"]
    by (simp add: h4 snapshot_def room_of_def messages_or_empty_def)
qed

section \<open>Two customer joins\<close>

lemma distinct_filter_le1:
  "distinct (map f xs) \<Longrightarrow> length (filter (\<lambda>x. f x = c) xs) \<le> Suc 0"
proof (induction xs)
  case Nil
  then show ?case by simp
next
  case (Cons x xs)
  show ?case
  proof (cases "f x = c")
    case True
    with Cons.prems have "c \<notin> f ` set xs"
      by simp
    then have "filter (\<lambda>x. f x = c) xs = []"
      by (auto simp: filter_empty_conv)
    with True show ?thesis by simp
  next
    case False
    with Cons show ?thesis by simp
  qed
qed

text \<open>The effect of one customer join on the table, the index and the trace.\<close>

lemma customer_join_upserts:
  "upserts (snd (customer_join w sock p ev)) = (if creates w p ev then [create_row p (now1 ev)] else [])"
  by (auto simp: customer_join_def customer_join_try_def join_finish_def catch_def Let_def
      creates_def upserts_append split: sum.splits option.splits)

lemma customer_join_livechat:
  "livechat (fst (customer_join w sock p ev)) =
     (if creates w p ev \<and> upsert_error ev = None then upsert (create_row p (now1 ev)) (livechat w)
      else livechat w)"
  by (auto simp: customer_join_def customer_join_try_def join_finish_def catch_def Let_def
      creates_def split: sum.splits option.splits)

lemma customer_join_conversations:
  "conversations (fst (customer_join w sock p ev)) =
     (if creates w p ev \<and> upsert_error ev = None
      then AList.update (jp_convId p) (new_conversation p (now2 ev)) (conversations w)
      else conversations w)"
  by (auto simp: customer_join_def customer_join_try_def join_finish_def catch_def Let_def
      creates_def split: sum.splits option.splits)

lemma customer_join_distinct:
  assumes "distinct (map live_chat_id (livechat w))" and "distinct (map fst (conversations w))"
  shows "distinct (map live_chat_id (livechat (fst (customer_join w sock p ev))))"
    and "distinct (map fst (conversations (fst (customer_join w sock p ev))))"
  using assms
  by (simp_all add: customer_join_livechat customer_join_conversations upsert_distinct
      AList.distinct_update)

text \<open>
  Two customer joins of one conversation from two sockets, with no message in between: each
  reads the empty log, and each issues the creating upsert.
\<close>

theorem two_joins_create_twice:
  "upserts (snd (run init_world two_joins)) =
     [create_row join_c1 1000, create_row join_c1 3000]"
  by (simp add: two_joins_def customer_join_def customer_join_try_def join_finish_def catch_def
      init_world_def join_c1_def ev_ok_def getConversationMessages_def getConversationMessages_of_def
      select_livechat_def Let_def upsert_def create_row_def merge_row_def merge_opt_def)

text \<open>
  C3 (as the code has it). After two customer joins, from any sockets, the table has at most
  one row and the index at most one summary for any conversation id, given that the keys of
  both were distinct before. The creating upsert is issued by each of the two joins whose
  read gives the empty log, so by both when the log is still empty at the second.
\<close>

theorem two_joins_one_record:
  assumes "distinct (map live_chat_id (livechat w))" and "distinct (map fst (conversations w))"
  shows "length (filter (\<lambda>r. live_chat_id r = c)
           (livechat (fst (run w [CustomerJoin s1 p1 e1, CustomerJoin s2 p2 e2])))) \<le> 1
       \<and> length (filter (\<lambda>kv. fst kv = c)
           (conversations (fst (run w [CustomerJoin s1 p1 e1, CustomerJoin s2 p2 e2])))) \<le> 1
       \<and> upserts (snd (run w [CustomerJoin s1 p1 e1, CustomerJoin s2 p2 e2])) =
           (if creates w p1 e1 then [create_row p1 (now1 e1)] else [])
           @ (if creates (fst (customer_join w s1 p1 e1)) p2 e2 then [create_row p2 (now1 e2)] else [])"
proof -
  let ?w1 = "fst (customer_join w s1 p1 e1)"
  let ?w2 = "fst (customer_join ?w1 s2 p2 e2)"
  have st: "fst (run w [CustomerJoin s1 p1 e1, CustomerJoin s2 p2 e2]) = ?w2"
    by (simp split: prod.splits)
  have tr: "snd (run w [CustomerJoin s1 p1 e1, CustomerJoin s2 p2 e2]) =
      snd (customer_join w s1 p1 e1) @ snd (customer_join ?w1 s2 p2 e2)"
    by (simp split: prod.splits)
  have d1: "distinct (map live_chat_id (livechat ?w1))" "distinct (map fst (conversations ?w1))"
    using customer_join_distinct [OF assms] by simp_all
  have d2: "distinct (map live_chat_id (livechat ?w2))" "distinct (map fst (conversations ?w2))"
    using customer_join_distinct [OF d1] by simp_all
  have "length (filter (\<lambda>r. live_chat_id r = c) (livechat ?w2)) \<le> 1"
    using distinct_filter_le1 [OF d2(1)] by simp
  moreover have "length (filter (\<lambda>kv. fst kv = c) (conversations ?w2)) \<le> 1"
    using distinct_filter_le1 [OF d2(2)] by simp
  moreover have "upserts (snd (customer_join w s1 p1 e1) @ snd (customer_join ?w1 s2 p2 e2)) =
           (if creates w p1 e1 then [create_row p1 (now1 e1)] else [])
           @ (if creates ?w1 p2 e2 then [create_row p2 (now1 e2)] else [])"
    by (simp only: upserts_append customer_join_upserts)
  ultimately show ?thesis
    by (simp only: st tr)
qed

theorem two_joins_one_record_witness:
  "distinct (map live_chat_id (livechat init_world))
   \<and> distinct (map fst (conversations init_world))
   \<and> length (filter (\<lambda>r. live_chat_id r = ''c1'') (livechat (fst (run init_world two_joins)))) \<le> 1
   \<and> length (filter (\<lambda>kv. fst kv = ''c1'') (conversations (fst (run init_world two_joins)))) \<le> 1"
proof -
  have h1: "distinct (map live_chat_id (livechat init_world))"
    by (simp add: init_world_def)
  have h2: "distinct (map fst (conversations init_world))"
    by (simp add: init_world_def)
  show ?thesis
    using h1 h2
      two_joins_one_record [OF h1 h2, where c = "''c1''" and ?s1.0 = "''s1''" and ?p1.0 = join_c1 and ?e1.0 = ev_ok
          and ?s2.0 = "''s2''" and ?p2.0 = join_c1 and ?e2.0 = "ev_ok\<lparr>now1 := 3000, now2 := 3001\<rparr>"]
    by (simp add: two_joins_def)
qed

section \<open>What enters the index\<close>

lemma read_no_fault:
  "getConversationMessages tbl fault c = Inr x \<Longrightarrow> getConversationMessages tbl None c = Inr x"
  by (cases fault) (simp_all add: read_fault)

lemma has_history_not_empty:
  "has_history tbl c \<Longrightarrow> getConversationMessages tbl fault c \<noteq> Inr (Some \<lparr>messages = Some []\<rparr>)"
  by (cases fault) (auto simp: has_history_def messages_or_empty_def read_fault)

lemma has_history_upsert_other:
  "live_chat_id r \<noteq> c \<Longrightarrow> has_history (upsert r tbl) c = has_history tbl c"
  by (simp add: has_history_def read_after_upsert_other)

lemma has_history_upsert_append:
  "has_history (upsert (update_row p (ms @ [m])) tbl) (sp_convId p)"
  using read_after_upsert [of "update_row p (ms @ [m])" "\<lparr>messages = Some (ms @ [m])\<rparr>" tbl]
  by (simp add: has_history_def update_row_def messages_or_empty_def)

lemma keyed_not_shown:
  assumes "index_keyed w" and "map_of (conversations w) c = None"
  shows "\<not> shown c (snapshot w)"
proof
  assume "shown c (snapshot w)"
  then obtain kv where kv: "kv \<in> set (conversations w)" "conv_convId (snd kv) = c"
    by (auto simp: shown_def snapshot_def)
  with assms(1) have "fst kv = c"
    by (auto simp: index_keyed_def list_all_iff)
  with kv(1) have "c \<in> fst ` set (conversations w)"
    by auto
  with assms(2) show False
    by (simp add: map_of_eq_None_iff)
qed

lemma keyed_update:
  assumes "list_all (\<lambda>kv. conv_convId (snd kv) = fst kv) al" and "conv_convId v = k"
  shows "list_all (\<lambda>kv. conv_convId (snd kv) = fst kv) (AList.update k v al)"
  using assms by (induction al) auto

lemma keyed_lookup:
  assumes "list_all (\<lambda>kv. conv_convId (snd kv) = fst kv) al" and "map_of al k = Some v"
  shows "conv_convId v = k"
  using assms by (induction al) (auto split: if_splits)

lemma message_send_livechat:
  "livechat (fst (message_send w sock p ev)) = livechat w
   \<or> (\<exists>ms. livechat (fst (message_send w sock p ev)) =
             upsert (update_row p (ms @ [message_of p (now1 ev)])) (livechat w))"
  by (auto simp: message_send_def message_send_try_def catch_def Let_def
      split: sum.splits option.splits)

lemma message_send_conversations:
  "conversations (fst (message_send w sock p ev)) = conversations w
   \<or> (\<exists>conv. map_of (conversations w) (sp_convId p) = Some conv
        \<and> conversations (fst (message_send w sock p ev)) =
            AList.update (sp_convId p)
              (conv\<lparr>conv_lastMessage := Some (message_of p (now1 ev)), conv_timestamp := now2 ev\<rparr>)
              (conversations w))"
  by (auto simp: message_send_def message_send_try_def catch_def Let_def
      split: sum.splits option.splits)

lemma agent_join_same:
  "conversations (fst (agent_join w sock c ev)) = conversations w"
  "livechat (fst (agent_join w sock c ev)) = livechat w"
  by (auto simp: agent_join_def agent_join_try_def catch_def split: sum.splits)

lemma disconnect_same:
  "conversations (fst (disconnect w sock)) = conversations w"
  "livechat (fst (disconnect w sock)) = livechat w"
  by (simp_all add: disconnect_def Let_def)

lemma sweep_same:
  "conversations (fst (sweep w now)) =
     filter (\<lambda>kv. \<not> (\<exists>x \<in> set (conversations w). fst x = fst kv \<and> conv_timestamp (snd x) < now - 3600000))
       (conversations w)"
  "livechat (fst (sweep w now)) = livechat w"
  by (simp_all add: sweep_def Let_def fold_sweep_step)

text \<open>A handler adds a key to the index only in a customer join that has read the empty log.\<close>

lemma handle_inserts:
  assumes "map_of (conversations w) k = None" and "map_of (conversations (fst (handle w i))) k \<noteq> None"
  shows "\<exists>sock p ev. i = CustomerJoin sock p ev \<and> jp_convId p = k \<and> creates w p ev
           \<and> upsert_error ev = None"
proof (cases i)
  case (CustomerJoin sock p ev)
  with assms show ?thesis
    by (auto simp: customer_join_conversations AList.update_conv' split: if_splits)
next
  case (AgentJoin sock c ev)
  with assms show ?thesis by (simp add: agent_join_same)
next
  case (MessageSend sock p ev)
  with assms message_send_conversations [of w sock p ev] show ?thesis
    by (auto simp: AList.update_conv' split: if_splits)
next
  case (Disconnect sock)
  with assms show ?thesis by (simp add: disconnect_same)
next
  case (Sweep now)
  from assms(1) have "k \<notin> fst ` set (conversations w)"
    by (simp add: map_of_eq_None_iff)
  then have "k \<notin> fst ` set (conversations (fst (sweep w now)))"
    by (auto simp: sweep_same)
  with assms(2) Sweep show ?thesis
    by (simp add: map_of_eq_None_iff)
qed

lemma handle_history:
  assumes "has_history (livechat w) c"
  shows "has_history (livechat (fst (handle w i))) c"
proof (cases i)
  case (CustomerJoin sock p ev)
  show ?thesis
  proof (cases "jp_convId p = c")
    case True
    with assms have "\<not> creates w p ev"
      by (simp add: creates_def has_history_not_empty)
    with CustomerJoin assms show ?thesis
      by (simp add: customer_join_livechat)
  next
    case False
    then have "live_chat_id (create_row p (now1 ev)) \<noteq> c"
      by (simp add: create_row_def)
    with CustomerJoin assms show ?thesis
      by (simp add: customer_join_livechat has_history_upsert_other)
  qed
next
  case (AgentJoin sock c' ev)
  with assms show ?thesis by (simp add: agent_join_same)
next
  case (MessageSend sock p ev)
  show ?thesis
  proof (cases "sp_convId p = c")
    case True
    with MessageSend assms message_send_livechat [of w sock p ev] show ?thesis
      by (auto simp: has_history_upsert_append)
  next
    case False
    then have "live_chat_id (update_row p ms) \<noteq> c" for ms
      by (simp add: update_row_def)
    with MessageSend assms message_send_livechat [of w sock p ev] show ?thesis
      by (auto simp: has_history_upsert_other)
  qed
next
  case (Disconnect sock)
  with assms show ?thesis by (simp add: disconnect_same)
next
  case (Sweep now)
  with assms show ?thesis by (simp add: sweep_same)
qed

lemma handle_keyed:
  assumes "index_keyed w"
  shows "index_keyed (fst (handle w i))"
proof (cases i)
  case (CustomerJoin sock p ev)
  have "conv_convId (new_conversation p (now2 ev)) = jp_convId p"
    by (simp add: new_conversation_def)
  with CustomerJoin assms show ?thesis
    by (simp add: index_keyed_def customer_join_conversations keyed_update)
next
  case (AgentJoin sock c ev)
  with assms show ?thesis by (simp add: index_keyed_def agent_join_same)
next
  case (MessageSend sock p ev)
  from assms have k: "list_all (\<lambda>kv. conv_convId (snd kv) = fst kv) (conversations w)"
    by (simp add: index_keyed_def)
  from MessageSend message_send_conversations [of w sock p ev] show ?thesis
  proof (elim disjE exE conjE)
    assume "conversations (fst (message_send w sock p ev)) = conversations w"
    with MessageSend k show ?thesis by (simp add: index_keyed_def)
  next
    fix conv
    assume l: "map_of (conversations w) (sp_convId p) = Some conv"
      and u: "conversations (fst (message_send w sock p ev)) =
            AList.update (sp_convId p)
              (conv\<lparr>conv_lastMessage := Some (message_of p (now1 ev)), conv_timestamp := now2 ev\<rparr>)
              (conversations w)"
    from keyed_lookup [OF k l] have "conv_convId (conv\<lparr>conv_lastMessage := Some (message_of p (now1 ev)), conv_timestamp := now2 ev\<rparr>) = sp_convId p"
      by simp
    from keyed_update [OF k this] MessageSend u show ?thesis
      by (simp add: index_keyed_def)
  qed
next
  case (Disconnect sock)
  with assms show ?thesis by (simp add: index_keyed_def disconnect_same)
next
  case (Sweep now)
  with assms show ?thesis by (simp add: index_keyed_def sweep_same list_all_iff)
qed

lemma handle_chat_updates:
  "chat_updates (snd (handle w i)) = [] \<or> chat_updates (snd (handle w i)) = [snapshot (fst (handle w i))]"
proof (cases i)
  case (CustomerJoin sock p ev)
  then show ?thesis
    by (auto simp: customer_join_def customer_join_try_def join_finish_def catch_def Let_def
        chat_updates_append snapshot_def split: sum.splits option.splits)
next
  case (AgentJoin sock c ev)
  then show ?thesis
    by (auto simp: agent_join_def agent_join_try_def catch_def split: sum.splits)
next
  case (MessageSend sock p ev)
  then show ?thesis
    by (auto simp: message_send_def message_send_try_def catch_def Let_def
        chat_updates_append snapshot_def split: sum.splits option.splits)
next
  case (Disconnect sock)
  then show ?thesis by (simp add: disconnect_def Let_def)
next
  case (Sweep now)
  then show ?thesis by (simp add: sweep_def Let_def)
qed

lemma handle_forgotten:
  assumes "index_keyed w" and "forgotten w c"
  shows "index_keyed (fst (handle w i))" and "forgotten (fst (handle w i)) c"
    and "list_all (\<lambda>snap. \<not> shown c snap) (chat_updates (snd (handle w i)))"
proof -
  show k: "index_keyed (fst (handle w i))"
    by (rule handle_keyed [OF assms(1)])
  from assms(2) have a: "map_of (conversations w) c = None" and h: "has_history (livechat w) c"
    by (simp_all add: forgotten_def)
  have n: "map_of (conversations (fst (handle w i))) c = None"
  proof (rule ccontr)
    assume "map_of (conversations (fst (handle w i))) c \<noteq> None"
    from handle_inserts [OF a this] obtain sock p ev where "jp_convId p = c" "creates w p ev"
      by blast
    with h show False
      by (simp add: creates_def has_history_not_empty)
  qed
  with handle_history [OF h, of i] show f: "forgotten (fst (handle w i)) c"
    by (simp add: forgotten_def)
  from keyed_not_shown [OF k n] handle_chat_updates [of w i]
  show "list_all (\<lambda>snap. \<not> shown c snap) (chat_updates (snd (handle w i)))"
    by auto
qed

lemma run_forgotten:
  assumes "index_keyed w" and "forgotten w c"
  shows "index_keyed (fst (run w is)) \<and> forgotten (fst (run w is)) c
       \<and> list_all (\<lambda>snap. \<not> shown c snap) (chat_updates (snd (run w is)))"
  using assms
proof (induction "is" arbitrary: w)
  case Nil
  then show ?case by simp
next
  case (Cons i "is")
  note step = handle_forgotten [OF Cons.prems, of i]
  from Cons.IH [OF step(1,2)] step(3) show ?case
    by (simp add: run_Cons_fst run_Cons_snd chat_updates_append del: run.simps)
qed

text \<open>Every handler keeps the keys of the table and of the index distinct.\<close>

lemma handle_distinct:
  assumes "distinct (map live_chat_id (livechat w))" and "distinct (map fst (conversations w))"
  shows "distinct (map live_chat_id (livechat (fst (handle w i))))"
    and "distinct (map fst (conversations (fst (handle w i))))"
proof -
  show "distinct (map live_chat_id (livechat (fst (handle w i))))"
  proof (cases i)
    case (MessageSend sock p ev)
    with assms(1) message_send_livechat [of w sock p ev] show ?thesis
      by (auto simp: upsert_distinct)
  qed (use assms in \<open>simp_all add: customer_join_distinct agent_join_same disconnect_same sweep_same\<close>)
  show "distinct (map fst (conversations (fst (handle w i))))"
  proof (cases i)
    case (MessageSend sock p ev)
    with assms(2) message_send_conversations [of w sock p ev] show ?thesis
      by (auto simp: AList.distinct_update)
  qed (use assms in \<open>simp_all add: customer_join_distinct agent_join_same disconnect_same
        sweep_same distinct_map_filter\<close>)
qed

lemma run_distinct:
  assumes "distinct (map live_chat_id (livechat w))" and "distinct (map fst (conversations w))"
  shows "distinct (map live_chat_id (livechat (fst (run w is))))
       \<and> distinct (map fst (conversations (fst (run w is))))"
  using assms
proof (induction "is" arbitrary: w)
  case Nil
  then show ?case by simp
next
  case (Cons i "is")
  from Cons.IH [OF handle_distinct [OF Cons.prems, of i]] show ?case
    by (simp add: run_Cons_fst del: run.simps)
qed

text \<open>
  C10. When the index does not hold a conversation whose stored log has messages, then
  after any sequence of events handled one after the other it still does not hold it, the
  log still has messages, and no \<^verbatim>\<open>chat:updated\<close> snapshot emitted on the way shows it.
  A handler adds a key to the index only in a customer join whose read gives the empty log
  and whose write succeeds; a sweep only removes entries.
\<close>

theorem forgotten_conversation_stays_out:
  assumes "index_keyed w" and "forgotten w c"
  shows "forgotten (fst (run w is)) c
       \<and> list_all (\<lambda>snap. \<not> shown c snap) (chat_updates (snd (run w is)))
       \<and> (\<forall>w' k i. map_of (conversations w') k = None
              \<and> map_of (conversations (fst (handle w' i))) k \<noteq> None \<longrightarrow>
            (\<exists>sock p ev. i = CustomerJoin sock p ev \<and> jp_convId p = k \<and> creates w' p ev
               \<and> upsert_error ev = None))
       \<and> (\<forall>w' now. set (conversations (fst (sweep w' now))) \<subseteq> set (conversations w'))"
proof -
  have "set (conversations (fst (sweep w' now))) \<subseteq> set (conversations w')" for w' now
    by (auto simp: sweep_same)
  with run_forgotten [OF assms, of "is"] handle_inserts show ?thesis
    by blast
qed

theorem forgotten_conversation_stays_out_witness:
  "index_keyed restart_world
   \<and> forgotten restart_world ''c1''
   \<and> map_of (conversations (fst (run restart_world comeback))) ''c1'' = None
   \<and> list_all (\<lambda>snap. \<not> shown ''c1'' snap) (chat_updates (snd (run restart_world comeback)))
   \<and> map_of (conversations init_world) ''c1'' = None
   \<and> map_of (conversations (fst (handle init_world (CustomerJoin ''s1'' join_c1 ev_ok)))) ''c1'' \<noteq> None
   \<and> creates init_world join_c1 ev_ok"
proof -
  have h1: "index_keyed restart_world"
    by (simp add: index_keyed_def restart_world_def)
  have h2: "forgotten restart_world ''c1''"
    by (simp add: forgotten_def has_history_def restart_world_def create_row_def join_c1_def
        getConversationMessages_def getConversationMessages_of_def select_livechat_def
        messages_or_empty_def)
  have h3: "map_of (conversations init_world) ''c1'' = None"
    by (simp add: init_world_def)
  have cr: "creates init_world join_c1 ev_ok"
    by (simp add: creates_def init_world_def ev_ok_def getConversationMessages_def
        getConversationMessages_of_def select_livechat_def)
  have h4: "map_of (conversations (fst (handle init_world (CustomerJoin ''s1'' join_c1 ev_ok)))) ''c1'' \<noteq> None"
    using cr by (simp add: customer_join_conversations ev_ok_def join_c1_def AList.update_conv')
  note inst = forgotten_conversation_stays_out [OF h1 h2, of comeback]
  from inst have a: "forgotten (fst (run restart_world comeback)) ''c1''"
    and b: "list_all (\<lambda>snap. \<not> shown ''c1'' snap) (chat_updates (snd (run restart_world comeback)))"
    by simp_all
  from a have "map_of (conversations (fst (run restart_world comeback))) ''c1'' = None"
    by (simp add: forgotten_def)
  with h1 h2 h3 h4 cr b show ?thesis
    by simp
qed

section \<open>The server's clock stamps the message\<close>

lemma read_ok_no_fault:
  "getConversationMessages tbl fault c = Inr x \<Longrightarrow> fault = None"
  by (cases fault) (simp_all add: read_fault)

text \<open>
  C7. The handler of \<^verbatim>\<open>message:send\<close> does the same whatever the payload's own
  \<open>timestamp\<close> is: the state and every effect are those of the payload without it. When
  its read and its write succeed, the one message it publishes, to the room of the
  conversation, and the message it appends to the log it writes, which is then the last of
  the stored log, is the message stamped with the first clock reading of the run.
\<close>

theorem send_ignores_client_timestamp:
  "message_send w sock (p\<lparr>sp_timestamp := t\<rparr>) ev = message_send w sock p ev
   \<and> (getConversationMessages (livechat w) (select_error ev) (sp_convId p) = Inr (Some cur)
        \<and> upsert_error ev = None \<longrightarrow>
      received (snd (message_send w sock (p\<lparr>sp_timestamp := t\<rparr>) ev)) =
        [(ToRoom (room_of (sp_convId p)), message_of p (now1 ev))]
      \<and> map (msg_timestamp \<circ> snd) (received (snd (message_send w sock (p\<lparr>sp_timestamp := t\<rparr>) ev)))
          = [now1 ev]
      \<and> upserts (snd (message_send w sock (p\<lparr>sp_timestamp := t\<rparr>) ev)) =
          [update_row p (messages_or_empty cur @ [message_of p (now1 ev)])]
      \<and> stored_log (fst (message_send w sock (p\<lparr>sp_timestamp := t\<rparr>) ev)) (sp_convId p) =
          Some \<lparr>messages = Some (messages_or_empty cur @ [message_of p (now1 ev)])\<rparr>
      \<and> msg_timestamp (message_of p (now1 ev)) = now1 ev)"
proof -
  have same: "message_send w sock (p\<lparr>sp_timestamp := t\<rparr>) ev = message_send w sock p ev"
    by (simp add: message_send_def message_send_try_def message_of_def update_row_def Let_def
        cong: sum.case_cong option.case_cong)
  have stamp: "msg_timestamp (message_of p (now1 ev)) = now1 ev"
    by (simp add: message_of_def)
  have ok: "received (snd (message_send w sock p ev)) =
        [(ToRoom (room_of (sp_convId p)), message_of p (now1 ev))]
      \<and> upserts (snd (message_send w sock p ev)) =
          [update_row p (messages_or_empty cur @ [message_of p (now1 ev)])]
      \<and> stored_log (fst (message_send w sock p ev)) (sp_convId p) =
          Some \<lparr>messages = Some (messages_or_empty cur @ [message_of p (now1 ev)])\<rparr>"
    if rd: "getConversationMessages (livechat w) (select_error ev) (sp_convId p) = Inr (Some cur)"
      and wr: "upsert_error ev = None"
  proof -
    from rd have nf: "select_error ev = None"
      by (rule read_ok_no_fault)
    with rd have sl: "stored_log w (sp_convId p) = Some cur"
      by (simp add: stored_log_read)
    have r: "received (snd (message_send w sock p ev)) =
        [(ToRoom (room_of (sp_convId p)), message_of p (now1 ev))]"
      using rd wr
      by (simp add: message_send_def message_send_try_def catch_def Let_def received_append
          split: option.splits)
    have u: "upserts (snd (message_send w sock p ev)) =
          [update_row p (messages_or_empty cur @ [message_of p (now1 ev)])]"
      using rd wr nf send_ok(2) [of w p cur ev sock] by simp
    from r u send_appends [OF sl nf wr, of sock] show ?thesis
      by simp
  qed
  from same stamp ok show ?thesis
    by simp
qed

theorem send_ignores_client_timestamp_witness:
  "getConversationMessages (livechat init_world) (select_error ev_ok) (sp_convId hello)
     = Inr (Some \<lparr>messages = Some []\<rparr>)
   \<and> upsert_error ev_ok = None
   \<and> received (snd (message_send init_world ''s1'' (hello\<lparr>sp_timestamp := Some 5\<rparr>) ev_ok)) =
       [(ToRoom ''conv-c1'',
         \<lparr>msg_text = ''hello'', msg_sender = ''customer'', msg_timestamp = 1000, msg_convId = ''c1''\<rparr>)]
   \<and> stored_log (fst (message_send init_world ''s1'' (hello\<lparr>sp_timestamp := Some 5\<rparr>) ev_ok)) ''c1'' =
       Some \<lparr>messages = Some
         [\<lparr>msg_text = ''hello'', msg_sender = ''customer'', msg_timestamp = 1000, msg_convId = ''c1''\<rparr>]\<rparr>"
proof -
  have h1: "getConversationMessages (livechat init_world) (select_error ev_ok) (sp_convId hello)
     = Inr (Some \<lparr>messages = Some []\<rparr>)"
    by (simp add: init_world_def ev_ok_def getConversationMessages_def
        getConversationMessages_of_def select_livechat_def)
  have h2: "upsert_error ev_ok = None"
    by (simp add: ev_ok_def)
  have h3: "sp_convId hello = ''c1''" "now1 ev_ok = 1000"
      "message_of hello 1000 =
         \<lparr>msg_text = ''hello'', msg_sender = ''customer'', msg_timestamp = 1000, msg_convId = ''c1''\<rparr>"
    by (simp_all add: hello_def ev_ok_def message_of_def)
  note inst = send_ignores_client_timestamp [where w = init_world and sock = "''s1''" and p = hello and t = "Some 5"
      and ev = ev_ok and cur = "\<lparr>messages = Some []\<rparr>"]
  from inst h1 h2
  have r: "received (snd (message_send init_world ''s1'' (hello\<lparr>sp_timestamp := Some 5\<rparr>) ev_ok)) =
        [(ToRoom (room_of (sp_convId hello)), message_of hello (now1 ev_ok))]"
    and s: "stored_log (fst (message_send init_world ''s1'' (hello\<lparr>sp_timestamp := Some 5\<rparr>) ev_ok))
          (sp_convId hello) =
        Some \<lparr>messages = Some (messages_or_empty \<lparr>messages = Some []\<rparr> @ [message_of hello (now1 ev_ok)])\<rparr>"
    by blast+
  from r s h1 h2 show ?thesis
    by (simp add: h3 room_of_def messages_or_empty_def)
qed

end
